theory Spec2Isabelle
  imports Complex_Main
begin

section \<open>Triangulation of wells from pairwise distances (welltestpy/tools/triangulate.py)\<close>

text \<open>
  The development embeds the functions of \<^verbatim>\<open>triangulate.py\<close>. A double is read as the
  real number it stands for, and every function takes the arithmetic of the machine as its
  first argument \<open>M\<close>: the result of a floating-point operation of the source is \<open>rnd M\<close>
  of the exact result, so \<open>a + b\<close> of the source is \<open>rnd M (a + b)\<close>, and the library
  routines of the source (\<open>**\<close>, \<open>np.linalg.norm\<close>, \<open>np.dot\<close>, \<open>np.linalg.inv\<close>) are
  further fields of \<open>M\<close>. Nothing is assumed about \<open>M\<close>, so what is proved for every \<open>M\<close>
  holds for the doubles of the program; the machine \<open>exact\<close> computes in exact real
  arithmetic. Negation, \<open>abs\<close>, \<open>max\<close>, comparisons and the literals are exact in doubles
  and are not rounded here. Overflow to infinity is not part of the development. The one
  special value kept is NaN, which the program produces when it divides by the computed
  distance zero of two coinciding points (\<open>AtNaN\<close>, \<open>AffineNaN\<close>, the result \<open>None\<close> of
  \<open>dist_pt\<close>); every comparison with it is false, as in numpy. The distance matrix is a
  two-dimensional numpy array, here the list of its rows; an index outside it raises
  \<open>IndexError\<close>.
\<close>

subsection \<open>Data\<close>

type_synonym vec = "real \<times> real"

type_synonym mat2 = "real \<times> real \<times> real \<times> real"

text \<open>
  The arithmetic: \<open>rnd\<close> rounds the result of \<open>+\<close>, \<open>-\<close>, \<open>*\<close>, \<open>/\<close> and \<open>np.sqrt\<close>;
  \<open>fpow x n\<close> is \<open>x ** n\<close>; \<open>fnorm v\<close> is \<open>np.linalg.norm\<close> of an array of two floats;
  \<open>fdot a b x y\<close> is one component of \<open>np.dot\<close>, the computed \<open>a * x + b * y\<close>; \<open>finv\<close>
  is \<open>np.linalg.inv\<close> of a 2-by-2 matrix given row by row, \<open>None\<close> when it raises
  \<open>LinAlgError\<close>.
\<close>

record machine =
  rnd :: "real \<Rightarrow> real"
  fpow :: "real \<Rightarrow> nat \<Rightarrow> real"
  fnorm :: "vec \<Rightarrow> real"
  fdot :: "real \<Rightarrow> real \<Rightarrow> real \<Rightarrow> real \<Rightarrow> real"
  finv :: "mat2 \<Rightarrow> mat2 option"

definition inv_exact :: "mat2 \<Rightarrow> mat2 option" where
  "inv_exact A =
     (case A of (a, b, c, d) \<Rightarrow>
        let det = a * d - b * c in
        if det = 0 then None else Some (d / det, - b / det, - c / det, a / det))"

definition exact :: machine where
  "exact = \<lparr> rnd = (\<lambda>x. x), fpow = (\<lambda>x n. x ^ n),
             fnorm = (\<lambda>v. sqrt (fst v * fst v + snd v * snd v)),
             fdot = (\<lambda>a b x y. a * x + b * y), finv = inv_exact \<rparr>"

text \<open>
  A slot of a solution holds the integer \<open>0\<close> (\<open>np.ndim = 0\<close>: the point is not placed)
  or an array of two floats.
\<close>

datatype point = Absent | At vec | AtNaN

type_synonym solution = "point list"

type_synonym matrix = "real list list"

text \<open>The three values of \<open>state\<close>: 0, 1 and 2.\<close>

datatype state = Placed | Indeterminate | Contradiction

text \<open>
  \<open>ValueError\<close> is raised by \<open>triangulate\<close>; the others are raised by Python or numpy:
  \<open>TypeError\<close> for subscripting the integer \<open>0\<close> of an unplaced slot, \<open>IndexError\<close> for an
  index out of range, \<open>UnboundLocalError\<close> for reading \<open>state\<close> in \<open>addpoint\<close> when no
  pair of anchors exists, \<open>LinAlgError\<close> for inverting a singular matrix. \<open>NotAPoint\<close>
  stands for the 2-by-2 array that \<open>np.dot(A, 0) + s\<close> leaves in the slot of an unplaced
  point in \<open>rotate\<close>: Python goes on with it, the development stops there.
\<close>

datatype error = ValueError | TypeError | IndexError | UnboundLocalError | LinAlgError | NotAPoint

definition entry :: "matrix \<Rightarrow> nat \<Rightarrow> nat \<Rightarrow> real" where
  "entry distances i j = distances ! i ! j"

text \<open>\<open>distances[i, j]\<close> is inside the array.\<close>

definition in_range :: "matrix \<Rightarrow> nat \<Rightarrow> nat \<Rightarrow> bool" where
  "in_range distances i j = (i < length distances \<and> j < length (distances ! i))"

definition square :: "matrix \<Rightarrow> bool" where
  "square distances = list_all (\<lambda>row. length row = length distances) distances"

text \<open>\<open>np.ndim(p) != 0\<close>\<close>

definition placed :: "point \<Rightarrow> bool" where
  "placed p = (p \<noteq> Absent)"

subsection \<open>Geometry\<close>

text \<open>
  \<open>np.array(v)\<close>: the scalar \<open>0\<close> of an unplaced slot broadcasts against a vector like the
  origin.
\<close>

fun coords :: "point \<Rightarrow> vec option" where
  "coords Absent = Some (0, 0)"
| "coords (At v) = Some v"
| "coords AtNaN = None"

text \<open>
  \<open>dist(v, w) = np.linalg.norm(np.array(v) - np.array(w))\<close>; \<open>None\<close> is NaN. The norm of
  the scalar \<open>0 - 0\<close> of two unplaced slots is \<open>0.0\<close>.
\<close>

definition dist_pt :: "machine \<Rightarrow> point \<Rightarrow> point \<Rightarrow> real option" where
  "dist_pt M v w =
     (if v = Absent \<and> w = Absent then Some 0
      else
        (case (coords v, coords w) of
           (Some a, Some b) \<Rightarrow> Some (fnorm M (rnd M (fst a - fst b), rnd M (snd a - snd b)))
         | _ \<Rightarrow> None))"

text \<open>\<open>x < dist(v, w)\<close> and \<open>dist(v, w) < x\<close>: false on NaN.\<close>

definition less_dist :: "real \<Rightarrow> real option \<Rightarrow> bool" where
  "less_dist x r = (case r of Some y \<Rightarrow> x < y | None \<Rightarrow> False)"

definition dist_less :: "real option \<Rightarrow> real \<Rightarrow> bool" where
  "dist_less r x = (case r of Some y \<Rightarrow> y < x | None \<Rightarrow> False)"

text \<open>\<open>abs(dist(v, w) - d) < prec\<close>\<close>

definition near :: "machine \<Rightarrow> point \<Rightarrow> point \<Rightarrow> real \<Rightarrow> real \<Rightarrow> bool" where
  "near M v w d prec =
     (case dist_pt M v w of Some r \<Rightarrow> \<bar>rnd M (r - d)\<bar> < prec | None \<Rightarrow> False)"

text \<open>\<open>(a**2 + c**2 - b**2)/(2*c)\<close>\<close>

definition xvalue :: "machine \<Rightarrow> real \<Rightarrow> real \<Rightarrow> real \<Rightarrow> real" where
  "xvalue M a b c =
     rnd M (rnd M (rnd M (fpow M a 2 + fpow M c 2) - fpow M b 2) / rnd M (2 * c))"

definition yvalue :: "machine \<Rightarrow> real \<Rightarrow> real \<Rightarrow> real \<Rightarrow> real \<times> real" where
  "yvalue M b a c =
     (if rnd M (a + b) \<le> c \<or> rnd M (a + c) \<le> b \<or> rnd M (b + c) \<le> a then (0, - 0)
      else
        let res = rnd M (2 * rnd M (rnd M (fpow M (rnd M (a * b)) 2 + fpow M (rnd M (a * c)) 2)
                                      + fpow M (rnd M (b * c)) 2));
            res = rnd M (res - rnd M (rnd M (fpow M a 4 + fpow M b 4) + fpow M c 4));
            res = max res 0;
            res = rnd M (sqrt res);
            res = rnd M (res / rnd M (2 * c))
        in (res, - res))"

text \<open>
  The coefficients \<open>A\<close> (row by row) and \<open>s\<close> of \<open>f(x) = Ax + s\<close>. \<open>AffineNaN\<close> is the
  pair whose entries are all NaN: \<open>A /= dist(a, b)\<close> with the computed distance zero, or
  with a NaN among the coordinates.
\<close>

datatype affine = Affine real real real real real real | AffineNaN

definition tranmat :: "machine \<Rightarrow> point \<Rightarrow> point \<Rightarrow> error + affine" where
  "tranmat M a b =
     (case (a, b) of
        (Absent, _) \<Rightarrow> Inl TypeError
      | (_, Absent) \<Rightarrow> Inl TypeError
      | (At (a0, a1), At (b0, b1)) \<Rightarrow>
          let d = fnorm M (rnd M (a0 - b0), rnd M (a1 - b1)) in
          if d = 0 then Inr AffineNaN
          else
            let A00 = rnd M (rnd M (b0 - a0) / d);
                A11 = rnd M (rnd M (b0 - a0) / d);
                A10 = rnd M (- rnd M (b1 - a1) / d);
                A01 = rnd M (rnd M (b1 - a1) / d)
            in Inr (Affine A00 A01 A10 A11 (- fdot M A00 A01 a0 a1) (- fdot M A10 A11 a0 a1))
      | _ \<Rightarrow> Inr AffineNaN)"

text \<open>\<open>B = np.linalg.inv(A)\<close> and \<open>t = -np.dot(B, s)\<close>.\<close>

definition invtranmat :: "machine \<Rightarrow> affine \<Rightarrow> error + affine" where
  "invtranmat M f =
     (case f of
        AffineNaN \<Rightarrow> Inr AffineNaN
      | Affine A00 A01 A10 A11 s0 s1 \<Rightarrow>
          (case finv M (A00, A01, A10, A11) of
             None \<Rightarrow> Inl LinAlgError
           | Some (B00, B01, B10, B11) \<Rightarrow>
               Inr (Affine B00 B01 B10 B11 (- fdot M B00 B01 s0 s1) (- fdot M B10 B11 s0 s1))))"

text \<open>\<open>affinef(A, s)(x) = np.dot(A, x) + s\<close> on an array of two floats.\<close>

fun affinef :: "machine \<Rightarrow> affine \<Rightarrow> vec \<Rightarrow> point" where
  "affinef M (Affine A00 A01 A10 A11 s0 s1) x =
     At (rnd M (fdot M A00 A01 (fst x) (snd x) + s0),
         rnd M (fdot M A10 A11 (fst x) (snd x) + s1))"
| "affinef M AffineNaN x = AtNaN"

subsection \<open>The placer\<close>

text \<open>
  The loop over \<open>k\<close> of \<open>pntcoord\<close> for one candidate position: the conjunction of
  \<open>abs(dist(sol[k], pos) - distances[i, k]) < prec\<close> over the placed points with a known
  distance to \<open>i\<close>.
\<close>

definition valid_pos ::
  "machine \<Rightarrow> solution \<Rightarrow> nat \<Rightarrow> matrix \<Rightarrow> real \<Rightarrow> point \<Rightarrow> bool" where
  "valid_pos M sol i distances prec pos =
     list_all (\<lambda>k. placed (sol ! k) \<and> entry distances i k > - (1 / 2)
                     \<longrightarrow> near M (sol ! k) pos (entry distances i k) prec)
       [0 ..< length sol]"

text \<open>
  Lines 213 to 222 of \<open>pntcoord\<close>: the two candidate positions and whether the two roots
  are the same (\<open>abs(y1 - y2) < prec / 4\<close>). When the computed distance of the anchors is
  zero, \<open>g\<close> is all NaN and so are both positions whatever \<open>x\<close> is; when an anchor holds
  NaN, \<open>x\<close>, \<open>y1\<close> and \<open>y2\<close> are NaN as well.
\<close>

definition candidates ::
  "machine \<Rightarrow> solution \<Rightarrow> nat \<Rightarrow> nat \<Rightarrow> nat \<Rightarrow> matrix \<Rightarrow> real
     \<Rightarrow> error + (point \<times> point \<times> bool)" where
  "candidates M sol i n m distances prec =
     (case tranmat M (sol ! n) (sol ! m) of
        Inl e \<Rightarrow> Inl e
      | Inr f \<Rightarrow>
         (case invtranmat M f of
            Inl e \<Rightarrow> Inl e
          | Inr g \<Rightarrow>
             (case dist_pt M (sol ! n) (sol ! m) of
                None \<Rightarrow> Inr (AtNaN, AtNaN, False)
              | Some c \<Rightarrow>
                  let x = xvalue M (entry distances i n) (entry distances i m) c;
                      (y1, y2) = yvalue M (entry distances i n) (entry distances i m) c;
                      pos1 = affinef M g (x, y1);
                      pos2 = affinef M g (x, y2)
                  in Inr (pos1, pos2, \<bar>rnd M (y1 - y2)\<bar> < rnd M (prec / 4)))))"

text \<open>
  Lines 224 to 245 of \<open>pntcoord\<close>: the validity of the two positions and the result built
  from them.
\<close>

definition place_valid ::
  "machine \<Rightarrow> solution \<Rightarrow> nat \<Rightarrow> matrix \<Rightarrow> real \<Rightarrow> point \<times> point \<times> bool
     \<Rightarrow> point list \<times> state" where
  "place_valid M sol i distances prec c =
     (case c of (pos1, pos2, same) \<Rightarrow>
        let valid1 = valid_pos M sol i distances prec pos1;
            valid2 = valid_pos M sol i distances prec pos2
        in if valid1 \<or> valid2
           then ((if valid1 then [pos1] else []) @
                 (if valid2 \<and> \<not> same then [pos2] else []), Placed)
           else ([], Contradiction))"

text \<open>
  \<open>pntcoord\<close>. The index errors are those of \<open>distances[i, n]\<close> and \<open>distances[i, m]\<close>
  on line 205 (the second is read only when the first is not below \<open>-0.5\<close>), of \<open>sol[n]\<close>
  and \<open>sol[m]\<close> on line 209, and of \<open>distances[i, k]\<close> on line 229, read for the placed
  points \<open>k\<close>.
\<close>

definition pntcoord ::
  "machine \<Rightarrow> solution \<Rightarrow> nat \<Rightarrow> nat \<Rightarrow> nat \<Rightarrow> matrix \<Rightarrow> real
     \<Rightarrow> error + (point list \<times> state)" where
  "pntcoord M sol i n m distances prec =
     (if \<not> in_range distances i n then Inl IndexError
      else if entry distances i n < - (1 / 2) then Inr ([], Indeterminate)
      else if \<not> in_range distances i m then Inl IndexError
      else if entry distances i m < - (1 / 2) then Inr ([], Indeterminate)
      else if \<not> (n < length sol \<and> m < length sol) then Inl IndexError
      else if less_dist (rnd M (entry distances i n + entry distances i m))
                (dist_pt M (sol ! n) (sol ! m))
      then Inr ([], Contradiction)
      else
        (case candidates M sol i n m distances prec of
           Inl e \<Rightarrow> Inl e
         | Inr c \<Rightarrow>
             if list_ex (\<lambda>k. placed (sol ! k) \<and> \<not> in_range distances i k) [0 ..< length sol]
             then Inl IndexError
             else Inr (place_valid M sol i distances prec c)))"

subsection \<open>The enumerator\<close>

text \<open>The index pairs of \<open>for n in range(c - 1): for m in range(n + 1, c)\<close>, in order.\<close>

definition pairs :: "nat \<Rightarrow> (nat \<times> nat) list" where
  "pairs c = concat (map (\<lambda>n. map (\<lambda>m. (n, m)) [n + 1 ..< c]) [0 ..< c - 1])"

text \<open>
  The double loop of \<open>addpoint\<close>; it is left by \<open>return\<close> from the first pair of anchors
  whose state is not 1.
\<close>

fun addpoint_loop ::
  "machine \<Rightarrow> solution \<Rightarrow> nat \<Rightarrow> matrix \<Rightarrow> real \<Rightarrow> nat list \<Rightarrow> solution list
     \<Rightarrow> (nat \<times> nat) list \<Rightarrow> error + (solution list \<times> state)" where
  "addpoint_loop M sol i distances prec solpnts res [] = Inr (res, Indeterminate)"
| "addpoint_loop M sol i distances prec solpnts res ((n, m) # rest) =
     (case pntcoord M sol i (solpnts ! n) (solpnts ! m) distances prec of
        Inl e \<Rightarrow> Inl e
      | Inr (tmppnt, st) \<Rightarrow>
          let res = (if st = Placed then res @ map (\<lambda>pnt. sol[i := pnt]) tmppnt else res)
          in if st \<noteq> Indeterminate then Inr (res, st)
             else addpoint_loop M sol i distances prec solpnts res rest)"

definition addpoint ::
  "machine \<Rightarrow> solution \<Rightarrow> nat \<Rightarrow> matrix \<Rightarrow> real \<Rightarrow> error + (solution list \<times> state)" where
  "addpoint M sol i distances prec =
     (if \<not> i < length sol then Inl IndexError
      else if placed (sol ! i) then Inr ([sol], Placed)
      else
        let solpnts = filter (\<lambda>n. placed (sol ! n)) [0 ..< length sol];
            pntscount = length solpnts
        in if pairs pntscount = [] then Inl UnboundLocalError
           else addpoint_loop M sol i distances prec solpnts [] (pairs pntscount))"

fun addpoints_loop ::
  "machine \<Rightarrow> solution \<Rightarrow> matrix \<Rightarrow> real \<Rightarrow> solution list \<Rightarrow> bool \<Rightarrow> nat list
     \<Rightarrow> error + (solution list \<times> state)" where
  "addpoints_loop M sol distances prec res posfound [] =
     (if posfound then Inr (res, Placed) else Inr (res, Indeterminate))"
| "addpoints_loop M sol distances prec res posfound (i # rest) =
     (case addpoint M sol i distances prec of
        Inl e \<Rightarrow> Inl e
      | Inr (ires, st) \<Rightarrow>
          if st = Placed then addpoints_loop M sol distances prec (res @ ires) True rest
          else if st = Contradiction then Inr ([], Contradiction)
          else addpoints_loop M sol distances prec res posfound rest)"

definition addpoints ::
  "machine \<Rightarrow> solution \<Rightarrow> matrix \<Rightarrow> real \<Rightarrow> error + (solution list \<times> state)" where
  "addpoints M sol distances prec =
     (let pleft = filter (\<lambda>n. \<not> placed (sol ! n)) [0 ..< length sol]
      in addpoints_loop M sol distances prec [] False pleft)"

text \<open>\<open>for sglres in res\<close> of \<open>triangulatesgl\<close>, collecting \<open>iterres\<close>.\<close>

fun sgl_pass ::
  "machine \<Rightarrow> matrix \<Rightarrow> real \<Rightarrow> solution list \<Rightarrow> solution list \<Rightarrow> error + solution list" where
  "sgl_pass M distances prec iterres [] = Inr iterres"
| "sgl_pass M distances prec iterres (sglres # rest) =
     (case addpoints M sglres distances prec of
        Inl e \<Rightarrow> Inl e
      | Inr (tmpres, st) \<Rightarrow>
          sgl_pass M distances prec (if st = Placed then iterres @ tmpres else iterres) rest)"

text \<open>\<open>for i in range(pntscount - 2)\<close> of \<open>triangulatesgl\<close>; the argument counts the passes left.\<close>

fun sgl_loop ::
  "machine \<Rightarrow> matrix \<Rightarrow> real \<Rightarrow> solution list \<Rightarrow> nat \<Rightarrow> error + solution list" where
  "sgl_loop M distances prec res 0 = Inr res"
| "sgl_loop M distances prec res (Suc k) =
     (case sgl_pass M distances prec [] res of
        Inl e \<Rightarrow> Inl e
      | Inr iterres \<Rightarrow>
          if iterres = [] then Inr [] else sgl_loop M distances prec iterres k)"

definition triangulatesgl ::
  "machine \<Rightarrow> matrix \<Rightarrow> nat \<Rightarrow> nat \<Rightarrow> real \<Rightarrow> error + solution list" where
  "triangulatesgl M distances sp1 sp2 prec =
     (if \<not> in_range distances sp1 sp2 then Inl IndexError
      else if entry distances sp1 sp2 < - (1 / 2) then Inr []
      else
        let pntscount = length distances;
            dis = entry distances sp1 sp2
        in if \<not> (sp1 < pntscount \<and> sp2 < pntscount) then Inl IndexError
           else
             sgl_loop M distances prec
               [(replicate pntscount Absent)[sp1 := At (0, 0), sp2 := At (dis, 0)]]
               (pntscount - 2))"

subsection \<open>Comparing and rotating solutions\<close>

fun solequal_loop :: "machine \<Rightarrow> real \<Rightarrow> bool \<Rightarrow> (point \<times> point) list \<Rightarrow> bool" where
  "solequal_loop M prec res [] = res"
| "solequal_loop M prec res ((sol_1, sol_2) # rest) =
     (if placed sol_1 \<and> placed sol_2
      then solequal_loop M prec (res \<and> dist_less (dist_pt M sol_1 sol_2) prec) rest
      else if placed sol_1 \<and> \<not> placed sol_2 then False
      else if \<not> placed sol_1 \<and> placed sol_2 then False
      else solequal_loop M prec res rest)"

definition solequal :: "machine \<Rightarrow> solution \<Rightarrow> solution \<Rightarrow> real \<Rightarrow> bool" where
  "solequal M sol1 sol2 prec = solequal_loop M prec True (zip sol1 sol2)"

text \<open>\<open>g(rot_e_e)\<close> in \<open>rotate\<close>: \<open>g\<close> applied to the content of a slot.\<close>

fun affinef_slot :: "machine \<Rightarrow> affine \<Rightarrow> point \<Rightarrow> error + point" where
  "affinef_slot M g Absent = Inl NotAPoint"
| "affinef_slot M g (At x) = Inr (affinef M g x)"
| "affinef_slot M g AtNaN = Inr AtNaN"

fun rotate_slots :: "machine \<Rightarrow> affine \<Rightarrow> solution \<Rightarrow> error + solution" where
  "rotate_slots M g [] = Inr []"
| "rotate_slots M g (rot_e_e # rest) =
     (case affinef_slot M g rot_e_e of
        Inl e \<Rightarrow> Inl e
      | Inr p \<Rightarrow>
          (case rotate_slots M g rest of Inl e \<Rightarrow> Inl e | Inr ps \<Rightarrow> Inr (p # ps)))"

definition rotate_sol :: "machine \<Rightarrow> solution \<Rightarrow> error + solution" where
  "rotate_sol M rot_e =
     (if length rot_e < 2 then Inl IndexError
      else
        (case tranmat M (rot_e ! 0) (rot_e ! 1) of
           Inl e \<Rightarrow> Inl e
         | Inr g \<Rightarrow> rotate_slots M g rot_e))"

text \<open>\<open>rotate(res)\<close>; \<open>rotate_sol\<close> is the body of its loop for one solution.\<close>

fun rotate_res :: "machine \<Rightarrow> solution list \<Rightarrow> error + solution list" where
  "rotate_res M [] = Inr []"
| "rotate_res M (rot_e # rest) =
     (case rotate_sol M rot_e of
        Inl e \<Rightarrow> Inl e
      | Inr r \<Rightarrow> (case rotate_res M rest of Inl e \<Rightarrow> Inl e | Inr rs \<Rightarrow> Inr (r # rs)))"

subsection \<open>Validation and the orchestrator\<close>

text \<open>
  \<open>distvalid(dis, err)\<close> on a square array; the printing under \<open>verbose\<close> has no effect on
  the result.
\<close>

definition distvalid :: "machine \<Rightarrow> matrix \<Rightarrow> real \<Rightarrow> bool" where
  "distvalid M dis err =
     (let pntscount = length dis in
      list_all (\<lambda>i. list_all (\<lambda>j. entry dis i j = entry dis j i) [0 ..< pntscount])
        [0 ..< pntscount]
      \<and> list_all (\<lambda>i. entry dis i i = 0) [0 ..< pntscount]
      \<and> list_all (\<lambda>i. list_all (\<lambda>j. list_all (\<lambda>k.
            (entry dis i j > - (1 / 2) \<and> entry dis i k > - (1 / 2) \<and> entry dis j k > - (1 / 2)
             \<longrightarrow> rnd M (entry dis i j + entry dis j k) \<ge> rnd M (entry dis i k - \<bar>err\<bar>)
               \<and> rnd M (entry dis i k + entry dis k j) \<ge> rnd M (entry dis i j - \<bar>err\<bar>)
               \<and> rnd M (entry dis j i + entry dis i k) \<ge> rnd M (entry dis j k - \<bar>err\<bar>)))
          [j + 1 ..< pntscount]) [i + 1 ..< pntscount - 1]) [0 ..< pntscount - 2])"

text \<open>
  The loops over the starting edges of \<open>triangulate\<close>: \<open>m\<close> from \<open>n + 1\<close>, then \<open>n\<close>; each
  is left by \<open>break\<close> when \<open>res\<close> is not empty and \<open>all_pos\<close> is false.
\<close>

fun start_inner ::
  "machine \<Rightarrow> matrix \<Rightarrow> real \<Rightarrow> bool \<Rightarrow> nat \<Rightarrow> solution list \<Rightarrow> nat list
     \<Rightarrow> error + solution list" where
  "start_inner M distances prec all_pos n res [] = Inr res"
| "start_inner M distances prec all_pos n res (m # rest) =
     (case triangulatesgl M distances n m prec of
        Inl e \<Rightarrow> Inl e
      | Inr tmpres \<Rightarrow>
          let res = res @ tmpres
          in if res \<noteq> [] \<and> \<not> all_pos then Inr res
             else start_inner M distances prec all_pos n res rest)"

fun start_outer ::
  "machine \<Rightarrow> matrix \<Rightarrow> real \<Rightarrow> bool \<Rightarrow> solution list \<Rightarrow> nat list
     \<Rightarrow> error + solution list" where
  "start_outer M distances prec all_pos res [] = Inr res"
| "start_outer M distances prec all_pos res (n # rest) =
     (case start_inner M distances prec all_pos n res [n + 1 ..< length distances] of
        Inl e \<Rightarrow> Inl e
      | Inr res \<Rightarrow>
          if res \<noteq> [] \<and> \<not> all_pos then Inr res
          else start_outer M distances prec all_pos res rest)"

text \<open>Lines 56 to 63 of \<open>triangulate\<close>: \<open>sol\<close> grows by the results equal to none in it.\<close>

fun dedup_loop :: "machine \<Rightarrow> real \<Rightarrow> solution list \<Rightarrow> solution list \<Rightarrow> solution list" where
  "dedup_loop M prec sol [] = sol"
| "dedup_loop M prec sol (r # rest) =
     (let addable = list_all (\<lambda>j. \<not> solequal M r j prec) sol
      in dedup_loop M prec (if addable then sol @ [r] else sol) rest)"

definition triangulate :: "machine \<Rightarrow> matrix \<Rightarrow> real \<Rightarrow> bool \<Rightarrow> error + solution list" where
  "triangulate M distances prec all_pos =
     (if \<not> distvalid M distances (rnd M (prec / 3)) then Inl ValueError
      else
        let pntscount = length distances in
        (case start_outer M distances prec all_pos [] [0 ..< pntscount - 1] of
           Inl e \<Rightarrow> Inl e
         | Inr res \<Rightarrow>
             if res = [] then Inr []
             else
               (case rotate_res M res of
                  Inl e \<Rightarrow> Inl e
                | Inr res \<Rightarrow> Inr (dedup_loop M prec [hd res] (tl res)))))"

subsection \<open>Notions used in the proofs\<close>





subsection \<open>The policy of the starting edges in the words of the specification\<close>

text \<open>
  The results of the starting edges are taken in order; an error ends the run; without the
  exhaustive flag the first edge that leaves the accumulated list non-empty ends it; with
  the flag all results are concatenated.
\<close>

fun edge_policy ::
  "bool \<Rightarrow> solution list \<Rightarrow> (error + solution list) list \<Rightarrow> error + solution list" where
  "edge_policy all_pos res [] = Inr res"
| "edge_policy all_pos res (r # rest) =
     (case r of
        Inl e \<Rightarrow> Inl e
      | Inr tmpres \<Rightarrow>
          if res @ tmpres \<noteq> [] \<and> \<not> all_pos then Inr (res @ tmpres)
          else edge_policy all_pos (res @ tmpres) rest)"

subsection \<open>The deduplication in the words of the specification\<close>


function first_seen :: "('a \<Rightarrow> 'a \<Rightarrow> bool) \<Rightarrow> 'a list \<Rightarrow> 'a list" where
  "first_seen eq [] = []"
| "first_seen eq (x # xs) = x # first_seen eq (filter (\<lambda>y. \<not> eq y x) xs)"
  by pat_completeness auto
termination
  by (relation "measure (\<lambda>(eq, xs). length xs)") (auto simp: less_Suc_eq_le)

subsection \<open>Concrete inputs\<close>

text \<open>
  Three wells on a line up to the tolerance: the distances from well 2 to wells 0 and 1 add
  up to \<open>2.998\<close>, the distance of wells 0 and 1 is \<open>3\<close>, the tolerance is \<open>0.01\<close>.
\<close>

definition sol_flat :: solution where
  "sol_flat = [At (0, 0), At (3, 0), Absent]"

definition dis_flat :: matrix where
  "dis_flat = [[0, 3, 1], [3, 0, 999 / 500], [1, 999 / 500, 0]]"

text \<open>
  Four wells, three of them placed; well 3 is at distance 5 from wells 0 and 1, which are 6
  apart, so its candidates are \<open>(3, 4)\<close> and \<open>(3, -4)\<close>; the tolerance is 36. Every number
  the placer computes at this input is an integer, so the doubles of the program carry the
  same values as the exact arithmetic.
\<close>

definition sol_near :: solution where
  "sol_near = [At (0, 0), At (6, 0), At (3, - 40), Absent]"

definition dis_near :: matrix where
  "dis_near = [[0, 6, 20, 5], [6, 0, 20, 5], [20, 20, 0, 7], [5, 5, 7, 0]]"

text \<open>Three wells; nothing is known about well 2.\<close>

definition dis_unknown :: matrix where
  "dis_unknown = [[0, 1, - 1], [1, 0, - 1], [- 1, - 1, 0]]"



text \<open>The right triangle with \<open>d01 = 3\<close>, \<open>d02 = 5\<close>, \<open>d12 = 4\<close>, the frontier of the starting edge
  of wells 0 and 1, and the two placements.\<close>

definition dis_345 :: matrix where
  "dis_345 = [[0, 3, 5], [3, 0, 4], [5, 4, 0]]"

definition start_345 :: solution where
  "start_345 = [At (0, 0), At (3, 0), Absent]"

definition up_345 :: solution where
  "up_345 = [At (0, 0), At (3, 0), At (3, 4)]"

definition down_345 :: solution where
  "down_345 = [At (0, 0), At (3, 0), At (3, - 4)]"

text \<open>Two wells at the same place.\<close>

definition dis_zero :: matrix where
  "dis_zero = [[0, 0], [0, 0]]"

text \<open>The frontier of the starting edge of wells 0 and 1 when nothing is known about well 2.\<close>

definition start_unknown :: solution where
  "start_unknown = [At (0, 0), At (1, 0), Absent]"

section \<open>Properties\<close>

subsection \<open>Index pairs and the number of placed points\<close>

lemma pairs_mem: "(n, m) \<in> set (pairs c) \<Longrightarrow> n < m \<and> m < c"
  by (auto simp: pairs_def)

lemma pairs_empty_iff: "pairs c = [] \<longleftrightarrow> c < 2"
proof (cases "c < 2")
  case True
  then show ?thesis by (auto simp: pairs_def)
next
  case False
  then have "(0, 1) \<in> set (pairs c)" by (auto simp: pairs_def intro!: bexI [of _ 0])
  with False show ?thesis by auto
qed







subsection \<open>What the placer and the enumerator return\<close>












subsection \<open>No search function raises the error of the validation\<close>















subsection \<open>Evaluation in exact arithmetic\<close>

lemma sqrt_eqI: "0 \<le> y \<Longrightarrow> y * y = x \<Longrightarrow> sqrt x = (y::real)"
  by (metis real_sqrt_abs2 abs_of_nonneg)

lemma sqrt_25: "sqrt 25 = 5"
  by (rule sqrt_eqI) auto

lemma sqrt_36: "sqrt 36 = 6"
  by (rule sqrt_eqI) auto

lemma sqrt_1296: "sqrt 1296 = 36"
  by (rule sqrt_eqI) auto

lemma sqrt_1936: "sqrt 1936 = 44"
  by (rule sqrt_eqI) auto

lemma sqrt_2304: "sqrt 2304 = 48"
  by (rule sqrt_eqI) auto

lemma upt_3: "[0 ..< 3] = [0, 1, 2]"
  by (simp add: upt_rec)

lemma upt_4: "[0 ..< 4] = [0, 1, 2, 3]"
  by (simp add: upt_rec)

lemma rnd_exact [simp]: "rnd exact x = x"
  by (simp add: exact_def)

lemma fpow_exact [simp]: "fpow exact x n = x ^ n"
  by (simp add: exact_def)

lemma fnorm_exact: "fnorm exact v = sqrt (fst v * fst v + snd v * snd v)"
  by (simp add: exact_def)

lemma fdot_exact [simp]: "fdot exact a b x y = a * x + b * y"
  by (simp add: exact_def)

lemma finv_exact [simp]: "finv exact = inv_exact"
  by (simp add: exact_def)

lemma fnorm_exact_x0 [simp]: "fnorm exact (x, 0) = \<bar>x\<bar>"
  by (simp add: fnorm_exact)

lemma inv_exact_id [simp]: "inv_exact (1, 0, 0, 1) = Some (1, 0, 0, 1)"
  by (simp add: inv_exact_def)

subsection \<open>Comparison and deduplication\<close>





lemma first_seen_subset: "set (first_seen eq xs) \<subseteq> set xs"
  by (induction eq xs rule: first_seen.induct) auto


lemma rotate_length: "rotate_res M res = Inr rot \<Longrightarrow> length rot = length res"
  by (induction res arbitrary: rot) (auto split: sum.splits)

lemma rotate_mem:
  "rotate_res M res = Inr rot \<Longrightarrow> r \<in> set rot \<Longrightarrow> \<exists>s \<in> set res. rotate_sol M s = Inr r"
  by (induction res arbitrary: rot) (auto split: sum.splits)

subsection \<open>The results of the starting edges\<close>

lemma triangulatesgl_unknown:
  assumes "in_range distances sp1 sp2" "entry distances sp1 sp2 < - (1 / 2)"
  shows "triangulatesgl M distances sp1 sp2 prec = Inr []"
  using assms by (simp add: triangulatesgl_def)

lemma start_inner_policy:
  "start_inner M distances prec all_pos n res ms
     = edge_policy all_pos res (map (\<lambda>m. triangulatesgl M distances n m prec) ms)"
  by (induction ms arbitrary: res) (auto simp: Let_def split: sum.splits)

lemma edge_policy_append:
  assumes "all_pos \<or> res = []"
  shows "edge_policy all_pos res (xs @ ys)
       = (case edge_policy all_pos res xs of
            Inl e \<Rightarrow> Inl e
          | Inr r \<Rightarrow> if r \<noteq> [] \<and> \<not> all_pos then Inr r else edge_policy all_pos r ys)"
  using assms
proof (induction xs arbitrary: res)
  case Nil
  then show ?case by auto
next
  case (Cons x xs)
  show ?case
  proof (cases x)
    case (Inl e)
    then show ?thesis by simp
  next
    case (Inr t)
    show ?thesis
    proof (cases "res @ t \<noteq> [] \<and> \<not> all_pos")
      case True
      then show ?thesis by (simp add: Inr)
    next
      case False
      then have c: "all_pos \<or> res @ t = []" by blast
      have a: "edge_policy all_pos res ((x # xs) @ ys) = edge_policy all_pos (res @ t) (xs @ ys)"
        using False by (simp only: append_Cons edge_policy.simps Inr sum.case if_False)
      have b: "edge_policy all_pos res (x # xs) = edge_policy all_pos (res @ t) xs"
        using False by (simp only: edge_policy.simps Inr sum.case if_False)
      show ?thesis unfolding a b by (rule Cons.IH [OF c])
    qed
  qed
qed

lemma start_outer_policy:
  assumes "all_pos \<or> res = []"
  shows "start_outer M distances prec all_pos res ns
       = edge_policy all_pos res
           (concat (map (\<lambda>n. map (\<lambda>m. triangulatesgl M distances n m prec)
                                [n + 1 ..< length distances]) ns))"
  using assms
proof (induction ns arbitrary: res)
  case Nil
  then show ?case by simp
next
  case (Cons n ns)
  let ?F = "\<lambda>n. map (\<lambda>m. triangulatesgl M distances n m prec) [n + 1 ..< length distances]"
  let ?r = "edge_policy all_pos res (?F n)"
  have i: "start_inner M distances prec all_pos n res [n + 1 ..< length distances] = ?r"
    by (rule start_inner_policy)
  have rhs: "edge_policy all_pos res (concat (map ?F (n # ns)))
      = (case ?r of Inl e \<Rightarrow> Inl e
         | Inr r \<Rightarrow> if r \<noteq> [] \<and> \<not> all_pos then Inr r
                    else edge_policy all_pos r (concat (map ?F ns)))"
    using edge_policy_append [OF Cons.prems, of "?F n" "concat (map ?F ns)"]
    by (simp only: list.map concat.simps)
  have lhs: "start_outer M distances prec all_pos res (n # ns)
      = (case ?r of Inl e \<Rightarrow> Inl e
         | Inr r \<Rightarrow> if r \<noteq> [] \<and> \<not> all_pos then Inr r
                    else start_outer M distances prec all_pos r ns)"
    by (simp only: start_outer.simps i)
  show ?case
  proof (cases ?r)
    case (Inl e)
    show ?thesis by (simp only: lhs rhs Inl sum.case)
  next
    case (Inr r)
    show ?thesis
    proof (cases "r \<noteq> [] \<and> \<not> all_pos")
      case True
      show ?thesis by (simp only: lhs rhs Inr sum.case if_P [OF True])
    next
      case False
      then have "all_pos \<or> r = []" by blast
      from Cons.IH [OF this] show ?thesis
        by (simp only: lhs rhs Inr sum.case if_not_P [OF False])
    qed
  qed
qed

lemma pairs_map:
  "concat (map (\<lambda>n. map (f n) [n + 1 ..< N]) [0 ..< N - 1]) = map (\<lambda>(n, m). f n m) (pairs N)"
  by (simp add: pairs_def map_concat comp_def)

lemma start_outer_pairs:
  "start_outer M distances prec all_pos [] [0 ..< length distances - 1]
     = edge_policy all_pos []
         (map (\<lambda>(n, m). triangulatesgl M distances n m prec) (pairs (length distances)))"
  using start_outer_policy [of all_pos "[]" M distances prec "[0 ..< length distances - 1]"]
    pairs_map [of "\<lambda>n m. triangulatesgl M distances n m prec" "length distances"]
  by simp

lemma edge_policy_all: "edge_policy True res (map Inr rs) = Inr (res @ concat rs)"
  by (induction rs arbitrary: res) auto

lemma edge_policy_first:
  "edge_policy False [] (map Inr rs)
     = Inr (case dropWhile (\<lambda>r. r = []) rs of [] \<Rightarrow> [] | r # _ \<Rightarrow> r)"
  by (induction rs) auto

lemma pairs_set: "set (pairs N) = {(i, j). i < j \<and> j < N}"
proof -
  have "(i, j) \<in> set (pairs N)" if "i < j" "j < N" for i j
    using that by (auto simp: pairs_def intro!: bexI [of _ i])
  then show ?thesis
    using pairs_mem by auto
qed

lemma pairs_sorted:
  "sorted_wrt (\<lambda>p q. fst p < fst q \<or> (fst p = fst q \<and> snd p < snd q)) (pairs N)"
proof -
  have "sorted_wrt (\<lambda>p q. fst p < fst q \<or> (fst p = fst q \<and> snd p < snd q))
          (concat (map (\<lambda>n. map (\<lambda>m. (n, m)) [n + 1 ..< N]) ns))"
    if "sorted_wrt (<) ns" for ns
    using that
  proof (induction ns)
    case Nil
    then show ?case by simp
  next
    case (Cons n ns)
    have 1: "sorted_wrt (\<lambda>p q. fst p < fst q \<or> (fst p = fst q \<and> snd p < snd q))
               (map (\<lambda>m. (n, m)) [n + 1 ..< N])"
      by (simp add: sorted_wrt_map)
    from Cons 1 show ?case
      by (auto simp: sorted_wrt_append)
  qed
  then show ?thesis
    unfolding pairs_def by simp
qed

subsection \<open>The right triangle, step by step\<close>


lemma sqrt_9: "sqrt 9 = 3" by (rule sqrt_eqI) auto
lemma sqrt_16: "sqrt 16 = 4" by (rule sqrt_eqI) auto
lemma sqrt_576: "sqrt 576 = 24" by (rule sqrt_eqI) auto
lemma sqrt_64: "sqrt 64 = 8" by (rule sqrt_eqI) auto

lemma pairs_2: "pairs (length [a, b]) = [(0, 1)]"
  by (simp add: pairs_def upt_rec)

lemma distvalid_345: "distvalid exact dis_345 (rnd exact (1 / 1000000 / 3))"
  by (simp add: distvalid_def dis_345_def entry_def upt_rec)

lemma candidates_345:
  "candidates exact start_345 2 0 1 dis_345 (1 / 1000000) = Inr (At (3, 4), At (3, - 4), False)"
  by (simp add: candidates_def start_345_def dis_345_def tranmat_def invtranmat_def dist_pt_def
      entry_def xvalue_def yvalue_def sqrt_576 Let_def)

lemma valid_345_up: "valid_pos exact start_345 2 dis_345 (1 / 1000000) (At (3, 4))"
  by (simp add: valid_pos_def start_345_def dis_345_def near_def placed_def dist_pt_def
      fnorm_exact entry_def upt_3 sqrt_25 sqrt_16)

lemma valid_345_down: "valid_pos exact start_345 2 dis_345 (1 / 1000000) (At (3, - 4))"
  by (simp add: valid_pos_def start_345_def dis_345_def near_def placed_def dist_pt_def
      fnorm_exact entry_def upt_3 sqrt_25 sqrt_16)

lemma pntcoord_345:
  "pntcoord exact start_345 2 0 1 dis_345 (1 / 1000000)
     = Inr ([At (3, 4), At (3, - 4)], Placed)"
proof -
  have t: "\<not> less_dist (rnd exact (entry dis_345 2 0 + entry dis_345 2 1))
             (dist_pt exact (start_345 ! 0) (start_345 ! 1))"
    by (simp add: less_dist_def start_345_def dis_345_def dist_pt_def entry_def)
  have k: "\<not> entry dis_345 2 0 < - (1 / 2)" "\<not> entry dis_345 2 1 < - (1 / 2)"
    by (simp_all add: dis_345_def entry_def)
  have r: "in_range dis_345 2 0" "in_range dis_345 2 1"
    "0 < length start_345 \<and> 1 < length start_345"
    by (simp_all add: in_range_def dis_345_def start_345_def)
  have x: "\<not> list_ex (\<lambda>k. placed (start_345 ! k) \<and> \<not> in_range dis_345 2 k)
              [0 ..< length start_345]"
    by (simp add: in_range_def dis_345_def start_345_def upt_3)
  show ?thesis
    unfolding pntcoord_def using valid_345_up valid_345_down t k r x
    by (simp del: One_nat_def add: candidates_345 place_valid_def)
qed

lemma solpnts_345:
  "filter (\<lambda>n. placed (start_345 ! n)) [0 ..< length start_345] = [0, 1]"
  by (simp add: start_345_def upt_3 placed_def)

lemma pleft_345:
  "filter (\<lambda>n. \<not> placed (start_345 ! n)) [0 ..< length start_345] = [2]"
  by (simp add: start_345_def upt_3 placed_def)

lemma addpoint_345:
  "addpoint exact start_345 2 dis_345 (1 / 1000000) = Inr ([up_345, down_345], Placed)"
proof -
  have a: "\<not> placed (start_345 ! 2)" "2 < length start_345"
    by (simp_all add: start_345_def placed_def)
  have u: "start_345[2 := At (3, 4)] = up_345" "start_345[2 := At (3, - 4)] = down_345"
    by (simp_all add: start_345_def up_345_def down_345_def)
  have p: "pntcoord exact start_345 2 ([0, 1] ! 0) ([0, 1] ! 1) dis_345 (1 / 1000000)
         = Inr ([At (3, 4), At (3, - 4)], Placed)"
    using pntcoord_345 by simp
  show ?thesis
    unfolding addpoint_def Let_def solpnts_345 pairs_2
    using a p u by (simp del: One_nat_def)
qed

lemma addpoints_345:
  "addpoints exact start_345 dis_345 (1 / 1000000) = Inr ([up_345, down_345], Placed)"
  unfolding addpoints_def Let_def pleft_345 by (simp add: addpoint_345)

lemma triangulatesgl_345:
  "triangulatesgl exact dis_345 0 1 (1 / 1000000) = Inr [up_345, down_345]"
proof -
  have s: "(replicate (length dis_345) Absent)[0 := At (0, 0), 1 := At (entry dis_345 0 1, 0)]
         = start_345"
    by (simp add: dis_345_def start_345_def entry_def numeral_3_eq_3)
  have l: "length dis_345 - 2 = Suc 0" "0 < length dis_345" "1 < length dis_345"
    "in_range dis_345 0 1"
    by (simp_all add: dis_345_def in_range_def)
  have e: "\<not> entry dis_345 0 1 < - (1 / 2)" by (simp add: dis_345_def entry_def)
  have "sgl_loop exact dis_345 (1 / 1000000) [start_345] (Suc 0) = Inr [up_345, down_345]"
    by (simp add: addpoints_345)
  then show ?thesis
    unfolding triangulatesgl_def Let_def s using e l by simp
qed

lemma rotate_up: "rotate_sol exact up_345 = Inr up_345"
  by (simp add: rotate_sol_def up_345_def tranmat_def Let_def)

lemma rotate_down: "rotate_sol exact down_345 = Inr down_345"
  by (simp add: rotate_sol_def down_345_def tranmat_def Let_def)

lemma solequal_345: "\<not> solequal exact down_345 up_345 (1 / 1000000)"
  by (simp add: solequal_def up_345_def down_345_def placed_def dist_less_def dist_pt_def
      fnorm_exact sqrt_64)

lemma start_345_first:
  "start_outer exact dis_345 (1 / 1000000) False [] [0 ..< length dis_345 - 1]
     = Inr [up_345, down_345]"
proof -
  have l: "[0 ..< length dis_345 - 1] = [0, 1]" "[0 + 1 ..< length dis_345] = [1, 2]"
    by (simp_all add: dis_345_def upt_rec)
  show ?thesis
    unfolding l start_outer.simps start_inner.simps
    using triangulatesgl_345 by (simp del: One_nat_def)
qed

lemma triangulate_345:
  "triangulate exact dis_345 (1 / 1000000) False = Inr [up_345, down_345]"
  unfolding triangulate_def Let_def
  using distvalid_345 start_345_first rotate_up rotate_down solequal_345
  by simp

subsection \<open>A well of which nothing is known\<close>


lemma pleft_unknown:
  "filter (\<lambda>n. \<not> placed (start_unknown ! n)) [0 ..< length start_unknown] = [2]"
  by (simp add: start_unknown_def upt_3 placed_def)

lemma solpnts_unknown:
  "filter (\<lambda>n. placed (start_unknown ! n)) [0 ..< length start_unknown] = [0, 1]"
  by (simp add: start_unknown_def upt_3 placed_def)

lemma pntcoord_unknown:
  "pntcoord M start_unknown 2 0 1 dis_unknown prec = Inr ([], Indeterminate)"
  by (simp add: pntcoord_def in_range_def dis_unknown_def entry_def)

lemma addpoint_unknown:
  "addpoint M start_unknown 2 dis_unknown prec = Inr ([], Indeterminate)"
proof -
  have a: "\<not> placed (start_unknown ! 2)" "2 < length start_unknown"
    by (simp_all add: start_unknown_def placed_def)
  have p: "pntcoord M start_unknown 2 ([0, 1] ! 0) ([0, 1] ! 1) dis_unknown prec
         = Inr ([], Indeterminate)"
    using pntcoord_unknown by simp
  show ?thesis
    unfolding addpoint_def Let_def solpnts_unknown pairs_2
    using a p by (simp del: One_nat_def)
qed

lemma addpoints_unknown:
  "addpoints M start_unknown dis_unknown prec = Inr ([], Indeterminate)"
  unfolding addpoints_def Let_def pleft_unknown by (simp add: addpoint_unknown)

lemma triangulatesgl_unknown_01:
  "triangulatesgl M dis_unknown 0 1 prec = Inr []"
proof -
  have s: "(replicate (length dis_unknown) Absent)
             [0 := At (0, 0), 1 := At (entry dis_unknown 0 1, 0)] = start_unknown"
    by (simp add: dis_unknown_def start_unknown_def entry_def numeral_3_eq_3)
  have l: "length dis_unknown - 2 = Suc 0" "0 < length dis_unknown" "1 < length dis_unknown"
    "in_range dis_unknown 0 1"
    by (simp_all add: dis_unknown_def in_range_def)
  have e: "\<not> entry dis_unknown 0 1 < - (1 / 2)" by (simp add: dis_unknown_def entry_def)
  have "sgl_loop M dis_unknown prec [start_unknown] (Suc 0) = Inr []"
    by (simp add: addpoints_unknown)
  then show ?thesis
    unfolding triangulatesgl_def Let_def s using e l by simp
qed

subsection \<open>The solutions found have one slot for each well\<close>


lemma pairs_3: "pairs 3 = [(0, 1), (0, 2), (1, 2)]"
  by (simp add: pairs_def upt_rec)







subsection \<open>When the validation error is raised\<close>


subsection \<open>The canonical frame in exact arithmetic\<close>


lemma rotate_slots_nth:
  "rotate_slots M g s = Inr r \<Longrightarrow> k < length s \<Longrightarrow> affinef_slot M g (s ! k) = Inr (r ! k)"
proof (induction s arbitrary: r k)
  case Nil
  then show ?case by simp
next
  case (Cons p s)
  from Cons.prems(1) obtain p' ps where
    p: "affinef_slot M g p = Inr p'" and ps: "rotate_slots M g s = Inr ps" and r: "r = p' # ps"
    by (auto split: sum.splits)
  show ?case
  proof (cases k)
    case 0
    with p r show ?thesis by simp
  next
    case (Suc j)
    with Cons.prems(2) have "j < length s" by simp
    from Cons.IH [OF ps this] Suc r show ?thesis by simp
  qed
qed

lemma dedup_loop_subset: "set (dedup_loop M prec sol rest) \<subseteq> set sol \<union> set rest"
proof (induction rest arbitrary: sol)
  case Nil
  then show ?case by simp
next
  case (Cons r rest)
  show ?case
    using Cons.IH [of "sol @ [r]"] Cons.IH [of sol] by (auto simp: Let_def)
qed

lemma tranmat_exact:
  fixes a0 a1 b0 b1 :: real
  defines "d \<equiv> sqrt ((a0 - b0) * (a0 - b0) + (a1 - b1) * (a1 - b1))"
  assumes "d \<noteq> 0"
  shows "tranmat exact (At (a0, a1)) (At (b0, b1))
       = Inr (Affine ((b0 - a0) / d) ((b1 - a1) / d) (- (b1 - a1) / d) ((b0 - a0) / d)
                (- ((b0 - a0) / d * a0 + (b1 - a1) / d * a1))
                (- (- (b1 - a1) / d * a0 + (b0 - a0) / d * a1)))"
  using assms by (simp add: tranmat_def fnorm_exact Let_def del: minus_diff_eq)

lemma canonical_exact:
  fixes a0 a1 b0 b1 :: real
  defines "d \<equiv> sqrt ((a0 - b0) * (a0 - b0) + (a1 - b1) * (a1 - b1))"
  defines "g \<equiv> Affine ((b0 - a0) / d) ((b1 - a1) / d) (- (b1 - a1) / d) ((b0 - a0) / d)
                (- ((b0 - a0) / d * a0 + (b1 - a1) / d * a1))
                (- (- (b1 - a1) / d * a0 + (b0 - a0) / d * a1))"
  assumes "d \<noteq> 0"
  shows "affinef exact g (a0, a1) = At (0, 0)" "affinef exact g (b0, b1) = At (d, 0)" "0 < d"
proof -
  show "affinef exact g (a0, a1) = At (0, 0)"
    by (simp add: g_def)
  have nn: "0 \<le> (a0 - b0) * (a0 - b0) + (a1 - b1) * (a1 - b1)" by simp
  have dd: "d * d = (a0 - b0) * (a0 - b0) + (a1 - b1) * (a1 - b1)"
    unfolding d_def using nn by (metis real_sqrt_mult_self abs_of_nonneg)
  have "(b0 - a0) / d * b0 + (b1 - a1) / d * b1 - ((b0 - a0) / d * a0 + (b1 - a1) / d * a1)
      = ((b0 - a0) * (b0 - a0) + (b1 - a1) * (b1 - a1)) / d"
    by (simp add: algebra_simps add_divide_distrib diff_divide_distrib)
  also have "\<dots> = (d * d) / d" by (simp add: dd algebra_simps)
  also have "\<dots> = d" using assms(3) by simp
  finally have x: "(b0 - a0) / d * b0 + (b1 - a1) / d * b1
      - ((b0 - a0) / d * a0 + (b1 - a1) / d * a1) = d" .
  have y: "- (b1 - a1) / d * b0 + (b0 - a0) / d * b1
      - (- (b1 - a1) / d * a0 + (b0 - a0) / d * a1) = 0"
    using assms(3) by (simp add: field_simps)
  show "affinef exact g (b0, b1) = At (d, 0)"
    using x y by (simp add: g_def del: minus_diff_eq)
  have "0 \<le> d" unfolding d_def by simp
  with assms(3) show "0 < d" by simp
qed

lemma rotate_sol_exact_canonical:
  assumes "rotate_sol exact s = Inr r" "s ! 0 = At p" "s ! 1 = At q" "p \<noteq> q"
  shows "r ! 0 = At (0, 0)
       \<and> r ! 1 = At (sqrt ((fst p - fst q) * (fst p - fst q) + (snd p - snd q) * (snd p - snd q)), 0)
       \<and> 0 < sqrt ((fst p - fst q) * (fst p - fst q) + (snd p - snd q) * (snd p - snd q))"
proof -
  obtain a0 a1 where p: "p = (a0, a1)" by (cases p)
  obtain b0 b1 where q: "q = (b0, b1)" by (cases q)
  let ?d = "sqrt ((a0 - b0) * (a0 - b0) + (a1 - b1) * (a1 - b1))"
  let ?g = "Affine ((b0 - a0) / ?d) ((b1 - a1) / ?d) (- (b1 - a1) / ?d) ((b0 - a0) / ?d)
                (- ((b0 - a0) / ?d * a0 + (b1 - a1) / ?d * a1))
                (- (- (b1 - a1) / ?d * a0 + (b0 - a0) / ?d * a1))"
  have "(a0 - b0) * (a0 - b0) + (a1 - b1) * (a1 - b1) \<noteq> 0"
    using assms(4) p q by (simp add: add_nonneg_eq_0_iff)
  then have d: "?d \<noteq> 0" by simp
  from assms(1) have l: "1 < length s"
    by (auto simp: rotate_sol_def split: if_splits)
  from assms(1) l tranmat_exact [OF d] assms(2,3) p q
  have rs: "rotate_slots exact ?g s = Inr r"
    by (simp add: rotate_sol_def)
  from l have l0: "0 < length s" by (cases s) auto
  from rotate_slots_nth [OF rs l0] assms(2) p
  have r0: "r ! 0 = affinef exact ?g (a0, a1)" by (simp del: affinef.simps)
  from rotate_slots_nth [OF rs l] assms(3) q
  have r1: "r ! 1 = affinef exact ?g (b0, b1)" by (simp del: affinef.simps)
  from canonical_exact [OF d] r0 r1 show ?thesis
    by (simp add: p q)
qed

lemma rotate_sol_At:
  assumes "rotate_sol M s = Inr r" "r ! 0 = At p'"
  shows "\<exists>p q. s ! 0 = At p \<and> s ! 1 = At q
           \<and> fnorm M (rnd M (fst p - fst q), rnd M (snd p - snd q)) \<noteq> 0"
proof -
  from assms(1) have l: "1 < length s"
    by (auto simp: rotate_sol_def split: if_splits)
  from assms(1) l obtain g where t: "tranmat M (s ! 0) (s ! 1) = Inr g"
    and rs: "rotate_slots M g s = Inr r"
    by (auto simp: rotate_sol_def split: sum.splits)
  from l have l0: "0 < length s" by (cases s) auto
  have a: "affinef_slot M g (s ! 0) = Inr (r ! 0)"
    by (rule rotate_slots_nth [OF rs l0])
  show ?thesis
  proof (cases "s ! 0")
    case Absent
    with a show ?thesis by simp
  next
    case AtNaN
    with a assms(2) show ?thesis by simp
  next
    case (At p)
    note s0 = this
    show ?thesis
    proof (cases "s ! 1")
      case Absent
      with t s0 show ?thesis by (simp add: tranmat_def split: prod.splits)
    next
      case AtNaN
      with t s0 have "g = AffineNaN" by (auto simp: tranmat_def split: prod.splits)
      with a s0 assms(2) show ?thesis by simp
    next
      case (At q)
      show ?thesis
      proof (cases "fnorm M (rnd M (fst p - fst q), rnd M (snd p - snd q)) = 0")
        case True
        with t s0 At have "g = AffineNaN"
          by (auto simp: tranmat_def Let_def split: prod.splits)
        with a s0 assms(2) show ?thesis by simp
      next
        case False
        with s0 At show ?thesis by blast
      qed
    qed
  qed
qed

lemma triangulate_mem:
  assumes "triangulate M distances prec all_pos = Inr sols" "r \<in> set sols"
  shows "\<exists>s. rotate_sol M s = Inr r"
proof -
  from assms obtain found rot where
    r: "rotate_res M found = Inr rot" and s: "sols = dedup_loop M prec [hd rot] (tl rot)"
    and ne: "found \<noteq> []"
    by (auto simp: triangulate_def Let_def split: if_splits sum.splits)
  from rotate_length [OF r] ne have "rot \<noteq> []" by auto
  then have "set [hd rot] \<union> set (tl rot) = set rot" by (cases rot) auto
  with dedup_loop_subset [of M prec "[hd rot]" "tl rot"] s assms(2) have "r \<in> set rot" by auto
  from rotate_mem [OF r this] show ?thesis by blast
qed

section \<open>The claims\<close>

subsection \<open>The triangle test of the placer\<close>

lemma candidates_flat:
  "candidates exact sol_flat 2 0 1 dis_flat (1 / 100)
     = Inr (At (1501999 / 1500000, 0), At (1501999 / 1500000, 0), True)"
  by (simp add: candidates_def sol_flat_def dis_flat_def tranmat_def invtranmat_def dist_pt_def
      entry_def xvalue_def yvalue_def Let_def power2_eq_square)

lemma valid_flat:
  "valid_pos exact sol_flat 2 dis_flat (1 / 100) (At (1501999 / 1500000, 0))"
  by (simp add: valid_pos_def sol_flat_def dis_flat_def near_def placed_def dist_pt_def
      entry_def upt_3)

lemma pntcoord_flat:
  "pntcoord exact sol_flat 2 0 1 dis_flat (1 / 100) = Inr ([], Contradiction)"
  by (simp add: pntcoord_def in_range_def sol_flat_def dis_flat_def less_dist_def dist_pt_def
      entry_def)

text \<open>
  C2, as stated, fails: the placer compares \<open>a + b < c\<close> with no tolerance. At the
  input \<open>sol_flat\<close>, \<open>dis_flat\<close> with \<open>prec = 1/100\<close> both distances are known,
  \<open>a + b = 2.998\<close> is not below \<open>c - prec = 2.99\<close>, and still the placer returns
  Contradiction from the triangle test, although the position it would have computed is valid
  against both anchors.
\<close>

theorem pntcoord_triangle_tolerance_counterexample:
  "\<not> entry dis_flat 2 0 < - (1 / 2) \<and> \<not> entry dis_flat 2 1 < - (1 / 2)
   \<and> dist_pt exact (sol_flat ! 0) (sol_flat ! 1) = Some 3
   \<and> \<not> entry dis_flat 2 0 + entry dis_flat 2 1 < 3 - 1 / 100
   \<and> pntcoord exact sol_flat 2 0 1 dis_flat (1 / 100) = Inr ([], Contradiction)
   \<and> candidates exact sol_flat 2 0 1 dis_flat (1 / 100)
       = Inr (At (1501999 / 1500000, 0), At (1501999 / 1500000, 0), True)
   \<and> place_valid exact sol_flat 2 dis_flat (1 / 100)
         (At (1501999 / 1500000, 0), At (1501999 / 1500000, 0), True)
       = ([At (1501999 / 1500000, 0)], Placed)"
proof -
  have k: "\<not> entry dis_flat 2 0 < - (1 / 2) \<and> \<not> entry dis_flat 2 1 < - (1 / 2)
      \<and> \<not> entry dis_flat 2 0 + entry dis_flat 2 1 < 3 - 1 / 100"
    by (simp add: dis_flat_def entry_def)
  have d: "dist_pt exact (sol_flat ! 0) (sol_flat ! 1) = Some 3"
    by (simp add: sol_flat_def dist_pt_def)
  have p: "place_valid exact sol_flat 2 dis_flat (1 / 100)
         (At (1501999 / 1500000, 0), At (1501999 / 1500000, 0), True)
       = ([At (1501999 / 1500000, 0)], Placed)"
    by (simp add: place_valid_def valid_flat)
  show ?thesis
    using k d p pntcoord_flat candidates_flat by simp
qed

text \<open>
  C2, amended: let the indices be in range, both distances \<open>a = distances[i, n]\<close> and
  \<open>b = distances[i, m]\<close> be known, and \<open>c\<close> be the distance of the anchors as \<open>dist\<close>
  computes it. Whatever the arithmetic of the machine, the triangle test compares the
  computed sum of \<open>a\<close> and \<open>b\<close> with \<open>c\<close> and no tolerance enters: when the computed sum is
  below \<open>c\<close> the placer returns Contradiction with no position, and it returns Contradiction
  exactly when the computed sum is below \<open>c\<close> or both candidate positions are computed and
  neither is valid.
\<close>

theorem pntcoord_triangle_test:
  assumes "i < length distances" "length sol \<le> length (distances ! i)"
    and "n < length sol" "m < length sol"
    and "\<not> entry distances i n < - (1 / 2)" "\<not> entry distances i m < - (1 / 2)"
    and "dist_pt M (sol ! n) (sol ! m) = Some c"
  shows "(rnd M (entry distances i n + entry distances i m) < c
            \<longrightarrow> pntcoord M sol i n m distances prec = Inr ([], Contradiction))
       \<and> ((\<exists>pts. pntcoord M sol i n m distances prec = Inr (pts, Contradiction))
            \<longleftrightarrow> (rnd M (entry distances i n + entry distances i m) < c
                 \<or> (\<exists>pos1 pos2 same.
                       candidates M sol i n m distances prec = Inr (pos1, pos2, same)
                       \<and> \<not> valid_pos M sol i distances prec pos1
                       \<and> \<not> valid_pos M sol i distances prec pos2)))"
proof -
  have r: "in_range distances i n" "in_range distances i m"
    using assms(1-4) by (simp_all add: in_range_def)
  have x: "\<not> list_ex (\<lambda>k. placed (sol ! k) \<and> \<not> in_range distances i k) [0 ..< length sol]"
    using assms(1,2) by (auto simp: list_ex_iff in_range_def)
  show ?thesis
  proof (cases "candidates M sol i n m distances prec")
    case (Inl e)
    then show ?thesis
      using assms(3-6) r x
      by (auto simp: pntcoord_def less_dist_def assms(7))
  next
    case (Inr t)
    obtain pos1 pos2 same where t: "t = (pos1, pos2, same)"
      by (cases t) auto
    show ?thesis
      using assms(3-6) r x
      by (auto simp: pntcoord_def less_dist_def assms(7) Inr t place_valid_def Let_def)
  qed
qed

theorem pntcoord_triangle_test_witness:
  "(\<exists>pts. pntcoord exact sol_flat 2 0 1 dis_flat (1 / 100) = Inr (pts, Contradiction))
   \<and> rnd exact (entry dis_flat 2 0 + entry dis_flat 2 1) < 3"
proof -
  have b: "2 < length dis_flat" "length sol_flat \<le> length (dis_flat ! 2)"
    "0 < length sol_flat" "1 < length sol_flat"
    by (simp_all add: dis_flat_def sol_flat_def)
  have k: "\<not> entry dis_flat 2 0 < - (1 / 2)" "\<not> entry dis_flat 2 1 < - (1 / 2)"
    by (simp_all add: dis_flat_def entry_def)
  have d: "dist_pt exact (sol_flat ! 0) (sol_flat ! 1) = Some 3"
    by (simp add: sol_flat_def dist_pt_def)
  have l: "rnd exact (entry dis_flat 2 0 + entry dis_flat 2 1) < 3"
    by (simp add: dis_flat_def entry_def)
  from pntcoord_triangle_test [OF b k d, of "1 / 100"] l show ?thesis
    by blast
qed

subsection \<open>A placement without a position\<close>

lemma candidates_near:
  "candidates exact sol_near 3 0 1 dis_near 36 = Inr (At (3, 4), At (3, - 4), True)"
  by (simp add: candidates_def sol_near_def dis_near_def tranmat_def invtranmat_def dist_pt_def
      entry_def xvalue_def yvalue_def sqrt_2304 Let_def)

lemma valid_near_1: "\<not> valid_pos exact sol_near 3 dis_near 36 (At (3, 4))"
  by (simp add: valid_pos_def sol_near_def dis_near_def near_def placed_def dist_pt_def
      fnorm_exact entry_def upt_4 sqrt_25 sqrt_1936)

lemma valid_near_2: "valid_pos exact sol_near 3 dis_near 36 (At (3, - 4))"
  by (simp add: valid_pos_def sol_near_def dis_near_def near_def placed_def dist_pt_def
      fnorm_exact entry_def upt_4 sqrt_25 sqrt_1296)

text \<open>
  C3 holds of no position list the code returns at this input: of the two candidates
  \<open>(3, 4)\<close> and \<open>(3, -4)\<close> for well 3 only the second is valid (well 2 is 44 and 36 away from
  them, the matrix says 7, the tolerance is 36), the roots count as the same
  (\<open>8 < 36 / 4\<close>), and the placer returns state 0 with an empty list: the valid position is
  dropped because the other root, which was not added, is taken to stand for it.
\<close>

theorem pntcoord_placed_without_position:
  "candidates exact sol_near 3 0 1 dis_near 36 = Inr (At (3, 4), At (3, - 4), True)
   \<and> \<not> valid_pos exact sol_near 3 dis_near 36 (At (3, 4))
   \<and> valid_pos exact sol_near 3 dis_near 36 (At (3, - 4))
   \<and> pntcoord exact sol_near 3 0 1 dis_near 36 = Inr ([], Placed)"
proof -
  have t: "\<not> less_dist (rnd exact (entry dis_near 3 0 + entry dis_near 3 1))
             (dist_pt exact (sol_near ! 0) (sol_near ! 1))"
    by (simp add: less_dist_def sol_near_def dis_near_def dist_pt_def entry_def)
  have k: "\<not> entry dis_near 3 0 < - (1 / 2)" "\<not> entry dis_near 3 1 < - (1 / 2)"
    by (simp_all add: dis_near_def entry_def)
  have r: "in_range dis_near 3 0" "in_range dis_near 3 1"
    "0 < length sol_near \<and> 1 < length sol_near"
    by (simp_all add: in_range_def dis_near_def sol_near_def)
  have x: "\<not> list_ex (\<lambda>k. placed (sol_near ! k) \<and> \<not> in_range dis_near 3 k)
              [0 ..< length sol_near]"
    by (simp add: in_range_def dis_near_def sol_near_def upt_4)
  have "pntcoord exact sol_near 3 0 1 dis_near 36 = Inr ([], Placed)"
    unfolding pntcoord_def using valid_near_1 valid_near_2 t k r x
    by (simp del: One_nat_def add: candidates_near place_valid_def)
  then show ?thesis
    using candidates_near valid_near_1 valid_near_2 by simp
qed

theorem pntcoord_placed_without_position_witness:
  "fst (projr (pntcoord exact sol_near 3 0 1 dis_near 36)) = []
   \<and> snd (projr (pntcoord exact sol_near 3 0 1 dis_near 36)) = Placed"
  using pntcoord_placed_without_position by simp

subsection \<open>Frontier members that make no progress\<close>




subsection \<open>The tolerance of the validation\<close>




subsection \<open>The order of the starting edges\<close>

lemma distvalid_unknown: "distvalid exact dis_unknown (rnd exact (1 / 100 / 3))"
  by (simp add: distvalid_def dis_unknown_def entry_def upt_rec)

text \<open>
  C6: whatever the arithmetic of the machine, on a square matrix that passes the validation
  \<open>triangulate\<close> is the canonicalisation and deduplication of what the policy of the
  specification makes of the results of \<open>triangulatesgl\<close> on the starting edges \<open>pairs\<close>.
  These are the pairs \<open>(i, j)\<close> with \<open>i < j\<close> below the number of wells, in ascending
  lexicographic order; an edge whose distance is unknown gives the empty list; without the
  exhaustive flag the policy returns the results of the first edge that has any and tries
  no edge after it; with the flag it returns the concatenation of the results of all
  edges. An error raised at an edge that is tried ends the run.
\<close>

theorem triangulate_starting_edges:
  "(square distances \<and> distvalid M distances (rnd M (prec / 3)) \<longrightarrow>
      triangulate M distances prec all_pos =
        (case edge_policy all_pos []
                (map (\<lambda>(n, m). triangulatesgl M distances n m prec) (pairs (length distances))) of
           Inl e \<Rightarrow> Inl e
         | Inr res \<Rightarrow>
             if res = [] then Inr []
             else (case rotate_res M res of
                     Inl e \<Rightarrow> Inl e
                   | Inr rot \<Rightarrow> Inr (dedup_loop M prec [hd rot] (tl rot)))))
   \<and> set (pairs N) = {(i, j). i < j \<and> j < N}
   \<and> sorted_wrt (\<lambda>p q. fst p < fst q \<or> (fst p = fst q \<and> snd p < snd q)) (pairs N)
   \<and> (in_range distances n m \<and> entry distances n m < - (1 / 2)
        \<longrightarrow> triangulatesgl M distances n m prec = Inr [])
   \<and> edge_policy False [] (map Inr rs)
        = Inr (case dropWhile (\<lambda>r. r = []) rs of [] \<Rightarrow> [] | r # _ \<Rightarrow> r)
   \<and> edge_policy True [] (map Inr rs) = Inr (concat rs)"
proof -
  have 1: "square distances \<and> distvalid M distances (rnd M (prec / 3)) \<longrightarrow>
      triangulate M distances prec all_pos =
        (case edge_policy all_pos []
                (map (\<lambda>(n, m). triangulatesgl M distances n m prec) (pairs (length distances))) of
           Inl e \<Rightarrow> Inl e
         | Inr res \<Rightarrow>
             if res = [] then Inr []
             else (case rotate_res M res of
                     Inl e \<Rightarrow> Inl e
                   | Inr rot \<Rightarrow> Inr (dedup_loop M prec [hd rot] (tl rot))))"
    using start_outer_pairs [of M distances prec all_pos]
    by (simp add: triangulate_def Let_def)
  have 4: "in_range distances n m \<and> entry distances n m < - (1 / 2)
        \<longrightarrow> triangulatesgl M distances n m prec = Inr []"
    using triangulatesgl_unknown by blast
  have 6: "edge_policy True [] (map Inr rs) = Inr (concat rs)"
    using edge_policy_all [of "[]" rs] by simp
  from 1 pairs_set [of N] pairs_sorted [of N] 4 edge_policy_first [of rs] 6
  show ?thesis by blast
qed

theorem triangulate_starting_edges_witness:
  "triangulate exact dis_345 (1 / 1000000) False = Inr [up_345, down_345]
   \<and> triangulate exact dis_unknown (1 / 100) True = Inr []
   \<and> triangulatesgl exact dis_unknown 0 2 (1 / 100) = Inr []"
proof -
  have u: "in_range dis_unknown 0 2 \<and> entry dis_unknown 0 2 < - (1 / 2)"
    "in_range dis_unknown 1 2 \<and> entry dis_unknown 1 2 < - (1 / 2)"
    by (simp_all add: in_range_def dis_unknown_def entry_def)
  have l: "length dis_345 = 3" "length dis_unknown = 3"
    by (simp_all add: dis_345_def dis_unknown_def)
  have sq: "square dis_345" "square dis_unknown"
    by (simp_all add: square_def dis_345_def dis_unknown_def)
  from triangulate_starting_edges [of dis_unknown exact "1 / 100" True 3 0 2 "[]"] u(1)
  have a: "triangulatesgl exact dis_unknown 0 2 (1 / 100) = Inr []" by blast
  from triangulate_starting_edges [of dis_unknown exact "1 / 100" True 3 1 2 "[]"] u(2)
  have b: "triangulatesgl exact dis_unknown 1 2 (1 / 100) = Inr []" by blast
  from triangulate_starting_edges [of dis_unknown exact "1 / 100" True 3 0 2 "[]"]
    distvalid_unknown sq(2)
  have "triangulate exact dis_unknown (1 / 100) True =
        (case edge_policy True []
                (map (\<lambda>(n, m). triangulatesgl exact dis_unknown n m (1 / 100))
                   (pairs (length dis_unknown))) of
           Inl e \<Rightarrow> Inl e
         | Inr res \<Rightarrow>
             if res = [] then Inr []
             else (case rotate_res exact res of
                     Inl e \<Rightarrow> Inl e
                   | Inr rot \<Rightarrow> Inr (dedup_loop exact (1 / 100) [hd rot] (tl rot))))"
    by blast
  then have c: "triangulate exact dis_unknown (1 / 100) True = Inr []"
    unfolding l pairs_3 using a b triangulatesgl_unknown_01 [of exact "1 / 100"]
    by (simp del: One_nat_def)
  from triangulate_starting_edges [of dis_345 exact "1 / 1000000" False 3 0 2 "[]"]
    distvalid_345 sq(1)
  have "triangulate exact dis_345 (1 / 1000000) False =
        (case edge_policy False []
                (map (\<lambda>(n, m). triangulatesgl exact dis_345 n m (1 / 1000000))
                   (pairs (length dis_345))) of
           Inl e \<Rightarrow> Inl e
         | Inr res \<Rightarrow>
             if res = [] then Inr []
             else (case rotate_res exact res of
                     Inl e \<Rightarrow> Inl e
                   | Inr rot \<Rightarrow> Inr (dedup_loop exact (1 / 1000000) [hd rot] (tl rot))))"
    by blast
  then have d: "triangulate exact dis_345 (1 / 1000000) False = Inr [up_345, down_345]"
    unfolding l pairs_3 using triangulatesgl_345 rotate_up rotate_down solequal_345
    by (simp del: One_nat_def)
  from a c d show ?thesis by blast
qed

subsection \<open>The deduplication\<close>



subsection \<open>The right triangle\<close>

text \<open>
  C9, as stated, fails: for the right triangle with \<open>d01 = 3\<close>, \<open>d02 = 5\<close>, \<open>d12 = 4\<close> and
  the tolerance \<open>1e-6\<close>, \<open>triangulate\<close> returns two solutions, not one, and well 2 is at
  \<open>(3, 4)\<close> in the first and at \<open>(3, -4)\<close> in the second; the point \<open>(9/5, 12/5)\<close> is at
  distance 3 from the origin, where the matrix has 5 for wells 0 and 2.
\<close>

theorem triangle_345_counterexample:
  "triangulate exact dis_345 (1 / 1000000) False
     = Inr [[At (0, 0), At (3, 0), At (3, 4)], [At (0, 0), At (3, 0), At (3, - 4)]]
   \<and> dist_pt exact (At (0, 0)) (At (9 / 5, 12 / 5)) = Some 3
   \<and> entry dis_345 0 2 = 5"
proof -
  have "sqrt (81 / 25 + 144 / 25) = 3"
    by (rule sqrt_eqI) auto
  then have "dist_pt exact (At (0, 0)) (At (9 / 5, 12 / 5)) = Some 3"
    by (simp add: dist_pt_def fnorm_exact)
  moreover have "entry dis_345 0 2 = 5"
    by (simp add: dis_345_def entry_def)
  ultimately show ?thesis
    using triangulate_345 by (simp add: up_345_def down_345_def)
qed

text \<open>
  C9, amended: for this matrix and tolerance \<open>triangulate\<close> returns exactly two solutions, the
  mirror images with wells 0 and 1 at \<open>(0, 0)\<close> and \<open>(3, 0)\<close> and well 2 at \<open>(3, 4)\<close> and
  at \<open>(3, -4)\<close>; the deduplication does not take them for equal, and both have the three
  distances of the matrix. The statement is for the default \<open>all_pos = False\<close>; every number
  computed on the way is an integer, so the doubles of the program carry the same values as
  the exact arithmetic.
\<close>

theorem triangle_345_two_solutions:
  "triangulate exact dis_345 (1 / 1000000) False = Inr [up_345, down_345]
   \<and> up_345 = [At (0, 0), At (3, 0), At (3, 4)]
   \<and> down_345 = [At (0, 0), At (3, 0), At (3, - 4)]
   \<and> \<not> solequal exact down_345 up_345 (1 / 1000000)
   \<and> dist_pt exact (up_345 ! 0) (up_345 ! 1) = Some (entry dis_345 0 1)
   \<and> dist_pt exact (up_345 ! 0) (up_345 ! 2) = Some (entry dis_345 0 2)
   \<and> dist_pt exact (up_345 ! 1) (up_345 ! 2) = Some (entry dis_345 1 2)
   \<and> dist_pt exact (down_345 ! 0) (down_345 ! 1) = Some (entry dis_345 0 1)
   \<and> dist_pt exact (down_345 ! 0) (down_345 ! 2) = Some (entry dis_345 0 2)
   \<and> dist_pt exact (down_345 ! 1) (down_345 ! 2) = Some (entry dis_345 1 2)"
proof -
  have "dist_pt exact (up_345 ! 0) (up_345 ! 1) = Some (entry dis_345 0 1)"
    "dist_pt exact (up_345 ! 0) (up_345 ! 2) = Some (entry dis_345 0 2)"
    "dist_pt exact (up_345 ! 1) (up_345 ! 2) = Some (entry dis_345 1 2)"
    "dist_pt exact (down_345 ! 0) (down_345 ! 1) = Some (entry dis_345 0 1)"
    "dist_pt exact (down_345 ! 0) (down_345 ! 2) = Some (entry dis_345 0 2)"
    "dist_pt exact (down_345 ! 1) (down_345 ! 2) = Some (entry dis_345 1 2)"
    by (simp_all add: up_345_def down_345_def dis_345_def entry_def dist_pt_def fnorm_exact
        sqrt_25 sqrt_16)
  then show ?thesis
    using triangulate_345 solequal_345 by (simp add: up_345_def down_345_def)
qed

theorem triangle_345_two_solutions_witness:
  "(\<exists>a b. triangulate exact dis_345 (1 / 1000000) False = Inr [a, b] \<and> a \<noteq> b)"
  using triangle_345_two_solutions by (auto simp: up_345_def down_345_def)

subsection \<open>The matrix with the distances 1, 1 and 5\<close>





subsection \<open>Two wells at the same place\<close>

lemma triangulatesgl_zero:
  "triangulatesgl M dis_zero 0 1 prec = Inr [[At (0, 0), At (0, 0)]]"
  by (simp add: triangulatesgl_def in_range_def dis_zero_def entry_def Let_def numeral_2_eq_2)

text \<open>
  C1 fails at the matrix of two wells at distance 0 of each other, with the tolerance
  \<open>0.1\<close>: the matrix passes the validation, the search places both wells at \<open>(0, 0)\<close>, and
  \<open>rotate\<close> divides by their distance: \<open>triangulate\<close> returns one solution whose two points
  are arrays of NaN. Both points are placed, their distance in the matrix is known, and the
  distance of the returned coordinates is not within the tolerance of it. The doubles of
  the program compute the same: \<open>0.0 / 0.0\<close> is NaN in numpy.
\<close>

theorem triangulate_coinciding_wells:
  "distvalid exact dis_zero (rnd exact (1 / 10 / 3))
   \<and> triangulatesgl exact dis_zero 0 1 (1 / 10) = Inr [[At (0, 0), At (0, 0)]]
   \<and> rotate_res exact [[At (0, 0), At (0, 0)]] = Inr [[AtNaN, AtNaN]]
   \<and> triangulate exact dis_zero (1 / 10) False = Inr [[AtNaN, AtNaN]]
   \<and> entry dis_zero 0 1 = 0
   \<and> \<not> near exact AtNaN AtNaN (entry dis_zero 0 1) (1 / 10)"
proof -
  have v: "distvalid exact dis_zero (rnd exact (1 / 10 / 3))"
    by (simp add: distvalid_def dis_zero_def entry_def upt_rec)
  have r: "rotate_res exact [[At (0, 0), At (0, 0)]] = Inr [[AtNaN, AtNaN]]"
    by (simp add: rotate_sol_def tranmat_def)
  have l: "[0 ..< length dis_zero - 1] = [0]" "[0 + 1 ..< length dis_zero] = [1]"
    by (simp_all add: dis_zero_def upt_rec)
  have s: "start_outer exact dis_zero (1 / 10) False [] [0 ..< length dis_zero - 1]
         = Inr [[At (0, 0), At (0, 0)]]"
    unfolding l start_outer.simps start_inner.simps
    using triangulatesgl_zero [of exact "1 / 10"] by (simp del: One_nat_def)
  have t: "triangulate exact dis_zero (1 / 10) False = Inr [[AtNaN, AtNaN]]"
    unfolding triangulate_def Let_def using v s r by simp
  have n: "\<not> near exact AtNaN AtNaN (entry dis_zero 0 1) (1 / 10)"
    by (simp add: near_def dist_pt_def)
  have e: "entry dis_zero 0 1 = 0" by (simp add: dis_zero_def entry_def)
  from v triangulatesgl_zero [of exact "1 / 10"] r t e n show ?thesis by blast
qed

theorem triangulate_coinciding_wells_witness:
  "projr (triangulate exact dis_zero (1 / 10) False) = [[AtNaN, AtNaN]]"
  using triangulate_coinciding_wells by simp

subsection \<open>The canonical frame\<close>

text \<open>
  C5: in exact arithmetic the body of \<open>rotate\<close> maps a solution whose points 0 and 1 are at
  two different places \<open>p\<close> and \<open>q\<close> to one with point 0 at \<open>(0, 0)\<close> and point 1 at the
  distance of \<open>p\<close> and \<open>q\<close> on the x-axis; and in every solution that \<open>triangulate\<close>
  returns on a square matrix, points 0 and 1, when they hold numbers, are at \<open>(0, 0)\<close> and on the positive
  x-axis with \<open>y = 0\<close>. (Points 0 and 1 of a returned solution hold NaN when they
  coincided before the rotation.)
\<close>

theorem triangulate_canonical_frame:
  "(rotate_sol exact s = Inr r \<and> s ! 0 = At p \<and> s ! 1 = At q \<and> p \<noteq> q
      \<longrightarrow> r ! 0 = At (0, 0)
          \<and> r ! 1 = At (sqrt ((fst p - fst q) * (fst p - fst q) + (snd p - snd q) * (snd p - snd q)), 0))
   \<and> (square distances \<and> triangulate exact distances prec all_pos = Inr sols \<and> r \<in> set sols
        \<and> r ! 0 = At p' \<and> r ! 1 = At q'
      \<longrightarrow> p' = (0, 0) \<and> snd q' = 0 \<and> 0 < fst q')"
proof -
  have 1: "r ! 0 = At (0, 0)
     \<and> r ! 1 = At (sqrt ((fst p - fst q) * (fst p - fst q) + (snd p - snd q) * (snd p - snd q)), 0)"
    if "rotate_sol exact s = Inr r \<and> s ! 0 = At p \<and> s ! 1 = At q \<and> p \<noteq> q"
    using that rotate_sol_exact_canonical [of s r p q] by blast
  have 2: "p' = (0, 0) \<and> snd q' = 0 \<and> 0 < fst q'"
    if a: "square distances \<and> triangulate exact distances prec all_pos = Inr sols
        \<and> r \<in> set sols \<and> r ! 0 = At p' \<and> r ! 1 = At q'"
  proof -
    from a obtain s0 where s0: "rotate_sol exact s0 = Inr r"
      using triangulate_mem by blast
    from rotate_sol_At [OF s0, of p'] a obtain p0 q0 where
      e: "s0 ! 0 = At p0" "s0 ! 1 = At q0"
      and n: "fnorm exact (rnd exact (fst p0 - fst q0), rnd exact (snd p0 - snd q0)) \<noteq> 0"
      by blast
    from n have "p0 \<noteq> q0" by (auto simp: fnorm_exact)
    from rotate_sol_exact_canonical [OF s0 e this] a
    show ?thesis by auto
  qed
  from 1 2 show ?thesis by blast
qed

theorem triangulate_canonical_frame_witness:
  "up_345 ! 0 = At (0, 0) \<and> up_345 ! 1 = At (3, 0)
   \<and> rotate_sol exact [At (1, 1), At (4, 5)] = Inr [At (0, 0), At (5, 0)]"
proof -
  have a: "square dis_345
      \<and> triangulate exact dis_345 (1 / 1000000) False = Inr [up_345, down_345]
      \<and> up_345 \<in> set [up_345, down_345] \<and> up_345 ! 0 = At (0, 0) \<and> up_345 ! 1 = At (3, 0)"
    using triangulate_345 by (simp add: up_345_def square_def dis_345_def)
  have t: "tranmat exact (At (1, 1)) (At (4, 5))
      = Inr (Affine (3 / 5) (4 / 5) (- 4 / 5) (3 / 5) (- 7 / 5) (1 / 5))"
    by (simp add: tranmat_def fnorm_exact sqrt_25 Let_def)
  have r: "rotate_sol exact [At (1, 1), At (4, 5)] = Inr [At (0, 0), At (5, 0)]"
    by (simp add: rotate_sol_def t)
  have b: "rotate_sol exact [At (1, 1), At (4, 5)] = Inr [At (0, 0), At (5, 0)]
      \<and> [At (1, 1), At (4, 5)] ! 0 = At (1, 1) \<and> [At (1, 1), At (4, 5)] ! 1 = At (4, 5)
      \<and> ((1, 1) :: vec) \<noteq> (4, 5)"
    using r by simp
  from triangulate_canonical_frame
    [of "[At (1, 1), At (4, 5)]" "[At (0, 0), At (5, 0)]" "(1, 1)" "(4, 5)"] b
  have c: "[At (0, 0), At (5, 0)] ! 0 = At (0, 0)" by blast
  from triangulate_canonical_frame
    [of s up_345 p q dis_345 "1 / 1000000" False "[up_345, down_345]" "(0, 0)" "(3, 0)"] a
  have d: "((0, 0) :: vec) = (0, 0) \<and> snd ((3, 0) :: vec) = 0 \<and> 0 < fst ((3, 0) :: vec)"
    by blast
  from a r c d show ?thesis by simp
qed

end
